theory Spec2Isabelle
  imports Main "HOL-Library.AList" "HOL-Library.Char_ord" "HOL-Library.List_Lexorder"
    "HOL-Library.Word" "HOL-Library.Multiset"
begin

section \<open>Data model of ecs.py\<close>

text \<open>
  Component values are dynamically typed Python objects. The model keeps the values the
  core itself produces or inspects: \<open>None\<close>, booleans, integers (the ids written by
  \<open>add_ent\<close>) and strings.
\<close>

datatype pyval = PNone | PBool bool | PInt int | PStr string

text \<open>The exceptions the modelled code can raise.\<close>

datatype error = KeyError | AttributeError | TypeError

text \<open>
  \<open>class Entity(dict)\<close>: a Python dict from component key to component value. A dict
  keeps the insertion order of its keys and holds each key once, so it is an association
  list with distinct keys. \<open>d[k] = v\<close> overwrites in place when \<open>k\<close> is present and
  appends otherwise, which is \<open>AList.update\<close>.
\<close>

type_synonym entity = "(string \<times> pyval) list"

text \<open>
  Entities are objects: the manager's store and the caller share them by reference. A
  reference is an address into the object heap.
\<close>

type_synonym ref = nat

record world =
  ent_count :: int
  ents :: "(int \<times> ref) list"
  heap :: "ref \<Rightarrow> entity"
  stdout :: "entity list"

text \<open>
  A system object: its \<open>criteria\<close> list and its \<open>do_step_all\<close> method. A system may
  mutate the entities it is given and, through a manager reference of its own (as
  \<open>DeletionSystem\<close> does), the entity store; it may raise.
\<close>

record 'a system =
  criteria :: "string list"
  do_step_all :: "ref list \<Rightarrow> 'a world_scheme \<Rightarrow> error + 'a world_scheme"

record draw_system =
  draw_criteria :: "string list"
  draw_all :: "ref list \<Rightarrow> int \<times> int \<Rightarrow> world \<Rightarrow> error + world"

text \<open>
  A filter object: its \<open>apply_individual\<close> method, which returns \<open>None\<close> or an object
  with an \<open>id\<close> attribute (an entity reference).
\<close>

record filter_obj =
  type_name :: string
  apply_individual :: "world \<Rightarrow> ref \<Rightarrow> entity \<Rightarrow> ref option"

record EntityManager = world +
  systems :: "unit system list"
  draw_systems :: "draw_system list"
  filters :: "(string \<times> filter_obj) list"

section \<open>Python dict and list primitives\<close>

definition dict_contains :: "('k \<times> 'v) list \<Rightarrow> 'k \<Rightarrow> bool" where
  "dict_contains d k = (map_of d k \<noteq> None)"

definition dict_getitem :: "('k \<times> 'v) list \<Rightarrow> 'k \<Rightarrow> error + 'v" where
  "dict_getitem d k = (case map_of d k of None \<Rightarrow> Inl KeyError | Some v \<Rightarrow> Inr v)"

definition dict_setitem :: "('k \<times> 'v) list \<Rightarrow> 'k \<Rightarrow> 'v \<Rightarrow> ('k \<times> 'v) list" where
  "dict_setitem d k v = AList.update k v d"

definition dict_delitem :: "('k \<times> 'v) list \<Rightarrow> 'k \<Rightarrow> error + ('k \<times> 'v) list" where
  "dict_delitem d k = (if dict_contains d k then Inr (AList.delete k d) else Inl KeyError)"

text \<open>\<open>dict.get(k)\<close>: the value, or \<open>None\<close> when the key is missing.\<close>

definition dict_get :: "entity \<Rightarrow> string \<Rightarrow> pyval" where
  "dict_get d k = (case map_of d k of None \<Rightarrow> PNone | Some v \<Rightarrow> v)"

text \<open>
  \<open>list.insert(i, x)\<close>: a negative index counts from the end, and an index outside the
  list is clamped to its ends.
\<close>

definition list_insert :: "'a list \<Rightarrow> int \<Rightarrow> 'a \<Rightarrow> 'a list" where
  "list_insert xs i x =
     (let n = int (length xs);
          j = (if i < 0 then max 0 (i + n) else min i n)
      in take (nat j) xs @ [x] @ drop (nat j) xs)"

text \<open>Truthiness of an optional integer argument: \<open>None\<close> and \<open>0\<close> are falsy.\<close>

definition truthy_index :: "int option \<Rightarrow> bool" where
  "truthy_index index = (case index of None \<Rightarrow> False | Some i \<Rightarrow> i \<noteq> 0)"

section \<open>Entity\<close>

text \<open>
  \<open>__getattr__ = dict.get\<close>, \<open>__setattr__ = dict.__setitem__\<close>,
  \<open>__delattr__ = dict.__delitem__\<close>.
\<close>

definition Entity_getattr :: "entity \<Rightarrow> string \<Rightarrow> pyval" where
  "Entity_getattr e name = dict_get e name"

definition Entity_setattr :: "entity \<Rightarrow> string \<Rightarrow> pyval \<Rightarrow> entity" where
  "Entity_setattr e name v = dict_setitem e name v"

definition Entity_delattr :: "entity \<Rightarrow> string \<Rightarrow> error + entity" where
  "Entity_delattr e name = dict_delitem e name"

text \<open>
  Python calls \<open>__getattr__\<close> only after the normal lookup has failed, and the normal
  lookup finds every attribute of the class \<open>Entity\<close> and of its bases \<open>dict\<close> and
  \<open>object\<close>. The methods below belong to \<open>dict\<close> on every Python. The other
  attribute names of the class (the special methods \<open>__len__\<close>, \<open>__class__\<close>,
  ..., and the methods one Python version has and another lacks) depend on the Python
  that runs the program and are an argument of the model.
\<close>

definition dict_methods :: "string list" where
  "dict_methods =
     [''clear'', ''copy'', ''fromkeys'', ''get'', ''items'', ''keys'', ''pop'', ''popitem'',
      ''setdefault'', ''update'', ''values'']"

text \<open>
  The value of the expression \<open>ent.name\<close>: the class attribute of that name when the
  class has one, else what the \<open>__getattr__\<close> hook returns.
\<close>

datatype attr_value = ClassAttr string | Component pyval

definition attr_access :: "string list \<Rightarrow> entity \<Rightarrow> string \<Rightarrow> attr_value" where
  "attr_access other_class_attrs e name =
     (if name \<in> set dict_methods \<or> name \<in> set other_class_attrs then ClassAttr name
      else Component (Entity_getattr e name))"

section \<open>EntityManager\<close>

text \<open>
  \<open>__init__\<close>: the counter starts at 0 whatever store is passed; a store, list or
  registry that is \<open>None\<close> or empty is replaced by a fresh empty one.
\<close>

definition EntityManager_init ::
  "(ref \<Rightarrow> entity) \<Rightarrow> (int \<times> ref) list option \<Rightarrow> unit system list option \<Rightarrow>
   draw_system list option \<Rightarrow> (string \<times> filter_obj) list option \<Rightarrow> EntityManager" where
  "EntityManager_init h ents0 systems0 draw_systems0 filters0 =
     \<lparr> ent_count = 0,
       ents = (case ents0 of None \<Rightarrow> [] | Some d \<Rightarrow> d),
       heap = h,
       stdout = [],
       systems = (case systems0 of None \<Rightarrow> [] | Some l \<Rightarrow> l),
       draw_systems = (case draw_systems0 of None \<Rightarrow> [] | Some l \<Rightarrow> l),
       filters = (case filters0 of None \<Rightarrow> [] | Some d \<Rightarrow> d) \<rparr>"

text \<open>
  \<open>add_ent\<close>: \<open>ent.id = id\<close> goes through \<open>__setattr__ = dict.__setitem__\<close>, so it
  writes the component \<open>'id'\<close> of the object itself; the object is stored by reference;
  the entity is printed; there is no \<open>return\<close>, so the call yields \<open>None\<close>.
\<close>

definition add_ent :: "'a world_scheme \<Rightarrow> ref \<Rightarrow> 'a world_scheme \<times> pyval" where
  "add_ent m ent =
     (let id' = ent_count m;
          m1 = m\<lparr>heap := (heap m)(ent := Entity_setattr (heap m ent) ''id'' (PInt id'))\<rparr>;
          m2 = m1\<lparr>ents := dict_setitem (ents m1) id' ent\<rparr>;
          m3 = m2\<lparr>ent_count := ent_count m2 + 1\<rparr>;
          m4 = m3\<lparr>stdout := stdout m3 @ [heap m3 ent]\<rparr>
      in (m4, PNone))"

definition add_draw_system ::
  "EntityManager \<Rightarrow> draw_system \<Rightarrow> int option \<Rightarrow> EntityManager" where
  "add_draw_system m new_draw_system index =
     (if truthy_index index
      then m\<lparr>draw_systems := list_insert (draw_systems m) (the index) new_draw_system\<rparr>
      else m\<lparr>draw_systems := draw_systems m @ [new_draw_system]\<rparr>)"

definition add_system :: "EntityManager \<Rightarrow> unit system \<Rightarrow> int option \<Rightarrow> EntityManager" where
  "add_system m new_system index =
     (if truthy_index index
      then m\<lparr>systems := list_insert (systems m) (the index) new_system\<rparr>
      else m\<lparr>systems := systems m @ [new_system]\<rparr>)"

text \<open>
  \<open>add_filter\<close>: under the given name when it is truthy (not \<open>None\<close>, not the empty
  string), else under the filter's type name; a second registration overwrites.
\<close>

definition add_filter :: "EntityManager \<Rightarrow> filter_obj \<Rightarrow> string option \<Rightarrow> EntityManager" where
  "add_filter m new_filter name =
     (case name of
        Some n \<Rightarrow>
          (if n \<noteq> [] then m\<lparr>filters := dict_setitem (filters m) n new_filter\<rparr>
           else m\<lparr>filters := dict_setitem (filters m) (type_name new_filter) new_filter\<rparr>)
      | None \<Rightarrow> m\<lparr>filters := dict_setitem (filters m) (type_name new_filter) new_filter\<rparr>)"

text \<open>\<open>__getitem__\<close>: \<open>self.ents[id]\<close>. The manager is returned beside the outcome.\<close>

definition EntityManager_getitem :: "EntityManager \<Rightarrow> int \<Rightarrow> (error + ref) \<times> EntityManager" where
  "EntityManager_getitem m id' = (dict_getitem (ents m) id', m)"

section \<open>System\<close>

text \<open>\<open>all([comp in ent for comp in self.criteria])\<close>\<close>

definition has_all :: "string list \<Rightarrow> entity \<Rightarrow> bool" where
  "has_all crit e = list_all (dict_contains e) crit"

text \<open>
  \<open>System.step\<close>: the group is built, as a list of object references, before
  \<open>do_step_all\<close> is called.
\<close>

definition System_step ::
  "'a system \<Rightarrow> (int \<times> ref) list \<Rightarrow> 'a world_scheme \<Rightarrow> error + 'a world_scheme" where
  "System_step s es w =
     do_step_all s (filter (\<lambda>ent. has_all (criteria s) (heap w ent)) (map snd es)) w"

text \<open>The default \<open>do_step_all\<close>: the per-entity step on each member, in order.\<close>

fun System_do_step_all ::
  "(ref \<Rightarrow> 'w \<Rightarrow> error + 'w) \<Rightarrow> ref list \<Rightarrow> 'w \<Rightarrow> error + 'w" where
  "System_do_step_all do_step_individual [] w = Inr w"
| "System_do_step_all do_step_individual (ent # rest) w =
     (case do_step_individual ent w of
        Inl e \<Rightarrow> Inl e
      | Inr w' \<Rightarrow> System_do_step_all do_step_individual rest w')"

text \<open>The default \<open>do_step_individual\<close>: \<open>pass\<close>.\<close>

definition System_do_step_individual :: "ref \<Rightarrow> 'w \<Rightarrow> error + 'w" where
  "System_do_step_individual ent w = Inr w"

text \<open>
  A subclass that sets its criteria and overrides \<open>do_step_individual\<close> only, and the
  base class itself (\<open>criteria = []\<close>, nothing overridden).
\<close>

definition System_with ::
  "string list \<Rightarrow> (ref \<Rightarrow> 'a world_scheme \<Rightarrow> error + 'a world_scheme) \<Rightarrow> 'a system" where
  "System_with crit do_step_individual =
     \<lparr> criteria = crit, do_step_all = System_do_step_all do_step_individual \<rparr>"


section \<open>DeletionSystem\<close>

text \<open>
  A key of the entity store is an integer; \<open>self.mgr.ents[id]\<close> finds it by Python
  equality, under which \<open>True\<close> is \<open>1\<close> and \<open>False\<close> is \<open>0\<close>, and no string or
  \<open>None\<close> equals an integer.
\<close>

definition key_of :: "pyval \<Rightarrow> int option" where
  "key_of v =
     (case v of PInt i \<Rightarrow> Some i | PBool b \<Rightarrow> Some (if b then 1 else 0) | _ \<Rightarrow> None)"

definition ents_delitem :: "(int \<times> ref) list \<Rightarrow> pyval \<Rightarrow> error + (int \<times> ref) list" where
  "ents_delitem d v = (case key_of v of None \<Rightarrow> Inl KeyError | Some k \<Rightarrow> dict_delitem d k)"

text \<open>\<open>for id in to_delete: del self.mgr.ents[id]\<close>\<close>

fun delete_each :: "pyval list \<Rightarrow> 'a world_scheme \<Rightarrow> error + 'a world_scheme" where
  "delete_each [] w = Inr w"
| "delete_each (id' # rest) w =
     (case ents_delitem (ents w) id' of
        Inl e \<Rightarrow> Inl e
      | Inr d \<Rightarrow> delete_each rest (w\<lparr>ents := d\<rparr>))"

text \<open>
  \<open>DeletionSystem.do_step_all\<close>, for the system built on the manager it runs in.
  \<open>ent.id\<close> reaches the \<open>__getattr__\<close> hook, \<open>id\<close> being no attribute of the class.
\<close>

definition DeletionSystem_do_step_all :: "ref list \<Rightarrow> 'a world_scheme \<Rightarrow> error + 'a world_scheme" where
  "DeletionSystem_do_step_all matching w =
     (let to_delete = map (\<lambda>ent. Entity_getattr (heap w ent) ''id'') matching
      in delete_each to_delete w)"

definition DeletionSystem :: "'a system" where
  "DeletionSystem =
     \<lparr> criteria = [''delete'', ''id''], do_step_all = DeletionSystem_do_step_all \<rparr>"

section \<open>Filter\<close>

text \<open>
  Truthiness of what \<open>apply_individual\<close> returns: \<open>None\<close> is falsy, and so is an
  entity with no component (an empty dict).
\<close>

definition truthy_result :: "'a world_scheme \<Rightarrow> ref option \<Rightarrow> bool" where
  "truthy_result w res = (case res of None \<Rightarrow> False | Some r \<Rightarrow> heap w r \<noteq> [])"

definition Filter_apply ::
  "(world \<Rightarrow> ref \<Rightarrow> entity \<Rightarrow> ref option) \<Rightarrow> world \<Rightarrow> (int \<times> ref) list \<Rightarrow> entity \<Rightarrow> pyval list" where
  "Filter_apply apply_ind w es crit =
     map (\<lambda>res. Entity_getattr (heap w (the res)) ''id'')
       (filter (truthy_result w) (map (\<lambda>(id', ent). apply_ind w ent crit) es))"


text \<open>
  \<open>EntityManager.filter(self, filter_id, **kwargs)\<close>. The criteria are passed as
  keyword arguments: a criterion named \<open>self\<close> or \<open>filter_id\<close> collides with a
  parameter and the call raises \<open>TypeError\<close> before the body runs. The body is
  \<open>self.filters[filter_id].apply(self.ents, kwargs)\<close>.
\<close>

definition filter_by :: "EntityManager \<Rightarrow> string \<Rightarrow> entity \<Rightarrow> (error + pyval list) \<times> EntityManager" where
  "filter_by m filter_id kwargs =
     (if dict_contains kwargs ''self'' \<or> dict_contains kwargs ''filter_id''
      then (Inl TypeError, m)
      else
        (case dict_getitem (filters m) filter_id of
           Inl e \<Rightarrow> (Inl e, m)
         | Inr f \<Rightarrow>
             (Inr (Filter_apply (apply_individual f) (world.truncate m) (ents m) kwargs), m)))"

section \<open>The tick\<close>


text \<open>
  \<open>state.append(tuple(sorted(ent.items())))\<close> for each entity of the store, in the
  store's order. The pairs of one dict have distinct keys, so the order of two pairs is
  decided by their keys.
\<close>

definition frozen_state :: "'a world_scheme \<Rightarrow> (string \<times> pyval) list list" where
  "frozen_state w = map (\<lambda>ent. sort_key fst (heap w ent)) (map snd (ents w))"

section \<open>The state hash\<close>





section \<open>Interleaved registrations and deletions\<close>

text \<open>
  What a caller can do to the store: register an entity (\<open>add_ent\<close>) or delete an id
  (\<open>del mgr.ents[id]\<close>, as \<open>DeletionSystem\<close> does). The id a registration assigns is
  read back from the entity.
\<close>

datatype op = Register ref | Delete pyval

definition assigned_id :: "'a world_scheme \<Rightarrow> ref \<Rightarrow> pyval" where
  "assigned_id w ent = Entity_getattr (heap (fst (add_ent w ent)) ent) ''id''"

text \<open>
  A run of operations from a state. \<open>seen\<close> collects the keys of every state the store
  has been in. The result lists, for each registration, the id it assigned and the keys
  seen before it. A deletion that raises leaves the store as it was.
\<close>

fun events :: "op list \<Rightarrow> 'a world_scheme \<Rightarrow> int list \<Rightarrow> (pyval \<times> int list) list" where
  "events [] w seen = []"
| "events (Register ent # ops) w seen =
     (assigned_id w ent, seen) #
       events ops (fst (add_ent w ent)) (seen @ map fst (ents (fst (add_ent w ent))))"
| "events (Delete id' # ops) w seen =
     (case ents_delitem (ents w) id' of
        Inl e \<Rightarrow> events ops w seen
      | Inr d \<Rightarrow> events ops (w\<lparr>ents := d\<rparr>) (seen @ map fst d))"

fun registrations :: "op list \<Rightarrow> nat" where
  "registrations [] = 0"
| "registrations (Register ent # ops) = Suc (registrations ops)"
| "registrations (Delete id' # ops) = registrations ops"

section \<open>Observing the calls of a system\<close>

text \<open>
  A world that also records, in order, the entities a per-entity step was called on, and
  the wrapping of any \<open>do_step_individual\<close> that adds this record after each call that
  returns.
\<close>

record traced_world = world +
  calls :: "ref list"

definition logged ::
  "(ref \<Rightarrow> traced_world \<Rightarrow> error + traced_world) \<Rightarrow> ref \<Rightarrow> traced_world \<Rightarrow> error + traced_world" where
  "logged do_step_individual ent w =
     (case do_step_individual ent w of
        Inl e \<Rightarrow> Inl e
      | Inr w' \<Rightarrow> Inr (w'\<lparr>calls := calls w' @ [ent]\<rparr>))"

section \<open>Example objects\<close>

text \<open>A manager built with no argument, over a heap of empty objects.\<close>

definition mgr0 :: EntityManager where
  "mgr0 = EntityManager_init (\<lambda>r. []) None None None None"

text \<open>Two systems told apart by their criteria.\<close>

definition sys_a :: "unit system" where
  "sys_a = System_with [''a''] System_do_step_individual"

definition sys_b :: "unit system" where
  "sys_b = System_with [''b''] System_do_step_individual"

text \<open>
  A store of two entities, one with the components A, B and C and one with A only, in a
  world that records calls.
\<close>

definition heap_abc :: "ref \<Rightarrow> entity" where
  "heap_abc r =
     (if r = 10 then [(''A'', PInt 1), (''B'', PInt 2), (''C'', PInt 3)]
      else if r = 11 then [(''A'', PInt 7)]
      else [])"

definition world_abc :: traced_world where
  "world_abc = \<lparr> ent_count = 2, ents = [(0, 10), (1, 11)], heap = heap_abc, stdout = [],
     calls = [] \<rparr>"

text \<open>An unregistered entity with one component, at address 2 of an otherwise empty heap.\<close>

definition world_pos :: world where
  "world_pos = \<lparr> ent_count = 0, ents = [], heap = (\<lambda>r. if r = 2 then [(''pos'', PInt 4)] else []),
     stdout = [] \<rparr>"

text \<open>
  Two registered entities, the first with a component \<open>hp\<close>, and a filter predicate that
  returns the entity itself when it has that component.
\<close>

definition world_hp :: world where
  "world_hp = \<lparr> ent_count = 2, ents = [(0, 10), (1, 11)],
     heap = (\<lambda>r. if r = 10 then [(''id'', PInt 0), (''hp'', PInt 5)]
                 else if r = 11 then [(''id'', PInt 1)] else []),
     stdout = [] \<rparr>"

definition has_hp :: "world \<Rightarrow> ref \<Rightarrow> entity \<Rightarrow> ref option" where
  "has_hp w ent crit = (if dict_contains (heap w ent) ''hp'' then Some ent else None)"

text \<open>A manager built on a store that already holds an entity under the key 0.\<close>

definition mgr_prebuilt :: EntityManager where
  "mgr_prebuilt = EntityManager_init (\<lambda>r. []) (Some [(0, 1)]) None None None"

text \<open>Three registered entities with the ids 1, 2 and 3; the first and the last are flagged.\<close>

definition world_del :: world where
  "world_del = \<lparr> ent_count = 4, ents = [(1, 21), (2, 22), (3, 23)],
     heap = (\<lambda>r. if r = 21 then [(''id'', PInt 1), (''delete'', PBool True)]
                 else if r = 22 then [(''id'', PInt 2)]
                 else if r = 23 then [(''id'', PInt 3), (''delete'', PBool True)] else []),
     stdout = [] \<rparr>"

text \<open>
  A per-entity step that mutates: it removes every component of every entity, so that
  after its first call no entity meets any criteria.
\<close>

definition clear_all :: "ref \<Rightarrow> traced_world \<Rightarrow> error + traced_world" where
  "clear_all ent w = Inr (w\<lparr>heap := (\<lambda>r. [])\<rparr>)"

text \<open>
  One entity flagged for deletion and registered twice: \<open>add_ent(e); add_ent(e)\<close> on a
  fresh store.
\<close>

definition world_flagged :: traced_world where
  "world_flagged = \<lparr> ent_count = 0, ents = [], heap = (\<lambda>r. [(''delete'', PBool True)]),
     stdout = [], calls = [] \<rparr>"

definition world_twice :: traced_world where
  "world_twice = fst (add_ent (fst (add_ent world_flagged 7)) 7)"

text \<open>A manager with two registered entities and one registered filter.\<close>

definition mgr_hp :: EntityManager where
  "mgr_hp = \<lparr> ent_count = 2, ents = [(0, 10), (1, 11)],
     heap = (\<lambda>r. if r = 10 then [(''id'', PInt 0), (''hp'', PInt 5)]
                 else if r = 11 then [(''id'', PInt 1)] else []),
     stdout = [],
     systems = [], draw_systems = [],
     filters = [(''HasHp'', \<lparr> type_name = ''HasHp'', apply_individual = has_hp \<rparr>)] \<rparr>"

text \<open>Special attribute names of a dict subclass, as one Python 3 has them.\<close>

definition special_names :: "string list" where
  "special_names =
     [''__class__'', ''__contains__'', ''__delattr__'', ''__delitem__'', ''__dict__'',
      ''__dir__'', ''__doc__'', ''__eq__'', ''__format__'', ''__ge__'', ''__getattr__'',
      ''__getattribute__'', ''__getitem__'', ''__gt__'', ''__hash__'', ''__init__'',
      ''__init_subclass__'', ''__iter__'', ''__le__'', ''__len__'', ''__lt__'', ''__module__'',
      ''__ne__'', ''__new__'', ''__reduce__'', ''__reduce_ex__'', ''__repr__'', ''__reversed__'',
      ''__setattr__'', ''__setitem__'', ''__sizeof__'', ''__str__'', ''__subclasshook__'',
      ''__weakref__'']"






section \<open>Registration of systems\<close>

text \<open>
  C2, the part that holds and the part that fails. With no index \<open>add_system\<close> and
  \<open>add_draw_system\<close> append. With the explicit index 0 they append as well: the test
  \<open>if index:\<close> takes 0 for "no index", so the front insertion the claim describes does
  not happen.
\<close>

theorem add_system_index_zero_appends:
  "systems (add_system m s None) = systems m @ [s] \<and>
   systems (add_system m s (Some 0)) = systems m @ [s] \<and>
   draw_systems (add_draw_system m d None) = draw_systems m @ [d] \<and>
   draw_systems (add_draw_system m d (Some 0)) = draw_systems m @ [d]"
  by (simp add: add_system_def add_draw_system_def truthy_index_def)

text \<open>
  The failing input: a manager holding the system \<open>a\<close>, then \<open>add_system(b, 0)\<close>. The
  list becomes \<open>[a, b]\<close>, not \<open>[b, a]\<close>. Any other index in range does insert.
\<close>

lemma add_system_front_fails:
  "map criteria (systems (add_system (EntityManager_init (\<lambda>r. []) None (Some [sys_a]) None None)
      sys_b (Some 0))) = [[''a''], [''b'']]"
  by (simp add: add_system_def truthy_index_def EntityManager_init_def sys_a_def sys_b_def
      System_with_def)

lemma add_system_nonzero_inserts:
  "map criteria (systems (add_system (EntityManager_init (\<lambda>r. []) None (Some [sys_a, sys_a]) None None)
      sys_b (Some 1))) = [[''a''], [''b''], [''a'']]"
  by (simp add: add_system_def truthy_index_def EntityManager_init_def sys_a_def sys_b_def
      System_with_def list_insert_def)

section \<open>Registration of entities\<close>

text \<open>
  C3 as stated fails: \<open>add_ent\<close> has no \<open>return\<close> statement, so the caller receives
  \<open>None\<close> and not the id. On a fresh manager the first registration assigns 0 and
  returns \<open>None\<close>.
\<close>

theorem add_ent_returns_no_id:
  "snd (add_ent mgr0 0) \<noteq> PInt 0"
  by (simp add: add_ent_def Let_def)

text \<open>
  C3 as amended: for every manager state and every entity, \<open>add_ent\<close> assigns the value
  of the counter as the entity's \<open>id\<close>, stores the entity under that id, advances the
  counter by one, and returns \<open>None\<close>; the id reaches the caller through the entity.
\<close>

theorem add_ent_assigns_and_stores:
  "snd (add_ent m ent) = PNone \<and>
   map_of (ents (fst (add_ent m ent))) (ent_count m) = Some ent \<and>
   map_of (heap (fst (add_ent m ent)) ent) ''id'' = Some (PInt (ent_count m)) \<and>
   ent_count (fst (add_ent m ent)) = ent_count m + 1"
  by (simp add: add_ent_def Let_def dict_setitem_def Entity_setattr_def update_conv')

section \<open>Lookup failures\<close>

lemma dict_getitem_missing: "k \<notin> fst ` set d \<Longrightarrow> dict_getitem d k = Inl KeyError"
  by (simp add: dict_getitem_def map_of_eq_None_iff [THEN iffD2])

text \<open>
  C7 as stated fails for criteria that use a parameter's name: with a criterion called
  \<open>filter_id\<close> (or \<open>self\<close>) the call \<open>filter(name, criteria)\<close> raises \<open>TypeError\<close>
  when the arguments are bound, whether or not a filter is registered under the name, so
  the failure is not a key-not-found one.
\<close>

theorem filter_by_colliding_criterion:
  "''near'' \<notin> fst ` set (filters mgr_hp) \<and>
   filter_by mgr_hp ''near'' [(''filter_id'', PInt 1)] = (Inl TypeError, mgr_hp) \<and>
   filter_by mgr_hp ''near'' [(''self'', PInt 1)] = (Inl TypeError, mgr_hp)"
  by (simp add: filter_by_def dict_contains_def mgr_hp_def)

text \<open>
  C7 as amended: for an id that is no key of the entity store, \<open>ecs[id]\<close> raises
  \<open>KeyError\<close>; for a name under which no filter is registered and criteria none of which
  is called \<open>self\<close> or \<open>filter_id\<close>, \<open>filter(name, criteria)\<close> raises \<open>KeyError\<close>;
  with a criterion of one of these two names it raises \<open>TypeError\<close>. In each case the
  error is the outcome handed to the caller and the manager is the one the call started
  from.
\<close>

theorem lookup_failures:
  "(id' \<notin> fst ` set (ents m) \<longrightarrow> EntityManager_getitem m id' = (Inl KeyError, m)) \<and>
   (name \<notin> fst ` set (filters m) \<and> ''self'' \<notin> fst ` set kwargs \<and>
    ''filter_id'' \<notin> fst ` set kwargs \<longrightarrow>
      filter_by m name kwargs = (Inl KeyError, m)) \<and>
   (''self'' \<in> fst ` set kwargs \<or> ''filter_id'' \<in> fst ` set kwargs \<longrightarrow>
      filter_by m name kwargs = (Inl TypeError, m))"
  by (auto simp add: EntityManager_getitem_def filter_by_def dict_getitem_missing
      dict_contains_def map_of_eq_None_iff)

theorem lookup_failures_witness:
  "(5::int) \<notin> fst ` set (ents mgr_hp) \<and>
   EntityManager_getitem mgr_hp 5 = (Inl KeyError, mgr_hp) \<and>
   ''near'' \<notin> fst ` set (filters mgr_hp) \<and>
   filter_by mgr_hp ''near'' [(''radius'', PInt 3)] = (Inl KeyError, mgr_hp)"
  using lookup_failures [of 5 mgr_hp "''near''" "[(''radius'', PInt 3)]"]
  by (simp add: mgr_hp_def)

section \<open>Attribute access on an entity\<close>

text \<open>
  C9 as stated fails for a key that names an attribute of the class: \<open>ent.items\<close> is the
  method \<open>dict.items\<close> whether or not the entity has a component \<open>'items'\<close>, so the
  access neither returns \<open>None\<close> for the absent key nor the stored value for the
  present one, whatever else the class defines.
\<close>

theorem attr_access_class_attribute:
  "\<not> (\<exists>other_class_attrs.
        attr_access other_class_attrs [] ''items'' = Component PNone \<or>
        attr_access other_class_attrs [(''items'', PInt 5)] ''items'' = Component (PInt 5))"
  by (simp add: attr_access_def dict_methods_def)

text \<open>
  C9 as amended: for every entity and every key that is not the name of an attribute of
  the class (neither a method of \<open>dict\<close> nor any other attribute the running Python
  gives the class), attribute access returns \<open>None\<close> when the key is absent and the
  stored value when it is present; it never raises.
\<close>

theorem attr_access_component:
  "name \<notin> set dict_methods \<Longrightarrow> name \<notin> set other_class_attrs \<Longrightarrow>
   attr_access other_class_attrs e name =
     Component (case map_of e name of None \<Rightarrow> PNone | Some v \<Rightarrow> v)"
  by (simp add: attr_access_def Entity_getattr_def dict_get_def)

theorem attr_access_component_witness:
  "''pos'' \<notin> set dict_methods \<and> ''pos'' \<notin> set special_names \<and>
   ''id'' \<notin> set dict_methods \<and> ''id'' \<notin> set special_names \<and>
   attr_access special_names [(''id'', PInt 3)] ''pos'' = Component PNone \<and>
   attr_access special_names [(''id'', PInt 3)] ''id'' = Component (PInt 3)"
  using attr_access_component [of "''pos''" special_names "[(''id'', PInt 3)]"]
    attr_access_component [of "''id''" special_names "[(''id'', PInt 3)]"]
  by (simp add: dict_methods_def special_names_def)

section \<open>Registration mutates the entity in place\<close>

lemma update_mem: "(k, v) \<in> set (AList.update k v d)"
  by (induction d) auto

lemma has_all_iff: "has_all K e = (\<forall>k\<in>set K. k \<in> fst ` set e)"
  by (auto simp add: has_all_def list_all_iff dict_contains_def map_of_eq_None_iff)

text \<open>
  C10: after \<open>add_ent(e)\<close> the store holds, under the assigned id, the reference \<open>e\<close>
  itself; the object at \<open>e\<close> has the component \<open>'id'\<close> with the assigned id and every
  other component as before; no other object changes. The \<open>'id'\<close> key then counts in a
  criteria test like any key, and the pair (\<open>'id'\<close>, id) is part of the entity's sorted
  tuple in the frozen state.
\<close>

theorem add_ent_in_place:
  "map_of (ents (fst (add_ent m ent))) (ent_count m) = Some ent \<and>
   map_of (heap (fst (add_ent m ent)) ent) = (map_of (heap m ent))(''id'' \<mapsto> PInt (ent_count m)) \<and>
   (\<forall>r. r \<noteq> ent \<longrightarrow> heap (fst (add_ent m ent)) r = heap m r) \<and>
   has_all [''id''] (heap (fst (add_ent m ent)) ent) \<and>
   (''id'', PInt (ent_count m)) \<in> set (sort_key fst (heap (fst (add_ent m ent)) ent)) \<and>
   sort_key fst (heap (fst (add_ent m ent)) ent) \<in> set (frozen_state (fst (add_ent m ent)))"
proof -
  let ?m = "fst (add_ent m ent)"
  have h: "heap ?m = (heap m)(ent := AList.update ''id'' (PInt (ent_count m)) (heap m ent))"
    by (simp add: add_ent_def Let_def Entity_setattr_def dict_setitem_def)
  have e: "ents ?m = AList.update (ent_count m) ent (ents m)"
    by (simp add: add_ent_def Let_def dict_setitem_def)
  have 1: "map_of (ents ?m) (ent_count m) = Some ent"
    by (simp add: e update_conv')
  have 2: "map_of (heap ?m ent) = (map_of (heap m ent))(''id'' \<mapsto> PInt (ent_count m))"
    by (simp add: h update_conv')
  have 3: "\<forall>r. r \<noteq> ent \<longrightarrow> heap ?m r = heap m r"
    by (simp add: h)
  have 4: "has_all [''id''] (heap ?m ent)"
    by (simp add: has_all_def dict_contains_def 2)
  have 5: "(''id'', PInt (ent_count m)) \<in> set (sort_key fst (heap ?m ent))"
    by (simp add: h update_mem)
  have "ent \<in> snd ` set (ents ?m)"
    using update_mem [of "ent_count m" ent "ents m"] by (force simp add: e)
  then have 6: "sort_key fst (heap ?m ent) \<in> set (frozen_state ?m)"
    by (auto simp add: frozen_state_def)
  from 1 2 3 4 5 6 show ?thesis by blast
qed

theorem add_ent_in_place_witness:
  "map_of (ents (fst (add_ent world_pos 2))) 0 = Some 2 \<and>
   map_of (heap (fst (add_ent world_pos 2)) 2) ''pos'' = Some (PInt 4) \<and>
   map_of (heap (fst (add_ent world_pos 2)) 2) ''id'' = Some (PInt 0) \<and>
   (3::nat) \<noteq> 2 \<and> heap (fst (add_ent world_pos 2)) 3 = heap world_pos 3 \<and>
   has_all [''id''] (heap (fst (add_ent world_pos 2)) 2)"
proof -
  have c: "ent_count world_pos = 0" and h: "map_of (heap world_pos 2) ''pos'' = Some (PInt 4)"
    by (simp_all add: world_pos_def)
  from add_ent_in_place [of world_pos 2] show ?thesis
    by (simp add: c h)
qed

section \<open>Selection by criteria\<close>

lemma System_step_default:
  "System_step (System_with K g) (ents w) w =
     System_do_step_all g
       (filter (\<lambda>ent. \<forall>k\<in>set K. k \<in> fst ` set (heap w ent)) (map snd (ents w))) w"
  by (simp add: System_step_def System_with_def has_all_iff)

lemma logged_all:
  assumes quiet: "\<forall>ent w. \<exists>w'. f ent w = Inr w' \<and> calls w' = calls w"
  shows "\<exists>w'. System_do_step_all (logged f) rs w = Inr w' \<and> calls w' = calls w @ rs"
proof (induction rs arbitrary: w)
  case Nil
  then show ?case by simp
next
  case (Cons r rs)
  from quiet obtain w1 where w1: "f r w = Inr w1" "calls w1 = calls w" by blast
  let ?w2 = "w1\<lparr>calls := calls w1 @ [r]\<rparr>"
  have step: "logged f r w = Inr ?w2"
    using w1 by (simp add: logged_def)
  from Cons [of ?w2] obtain w' where
    "System_do_step_all (logged f) rs ?w2 = Inr w'" "calls w' = calls ?w2 @ rs" by blast
  with w1 step show ?case by simp
qed

text \<open>
  C6 as stated fails where one entity is stored under two ids: the group then holds it
  twice and the per-entity step is called twice on it, not exactly once.
\<close>

theorem System_step_twice_registered:
  "map snd (ents world_twice) = [7, 7] \<and>
   System_step (System_with [''id''] (logged System_do_step_individual)) (ents world_twice)
     world_twice = Inr (world_twice\<lparr>calls := [7, 7]\<rparr>)"
proof -
  have e: "ents world_twice = [(0, 7), (1, 7)]"
    by (simp add: world_twice_def world_flagged_def add_ent_def Let_def dict_setitem_def)
  have h: "heap world_twice 7 = [(''delete'', PBool True), (''id'', PInt 1)]"
    by (simp add: world_twice_def world_flagged_def add_ent_def Let_def dict_setitem_def
        Entity_setattr_def)
  have c: "calls world_twice = []"
    by (simp add: world_twice_def world_flagged_def add_ent_def Let_def)
  show ?thesis
    by (simp add: System_step_def System_with_def e h c has_all_def dict_contains_def
        logged_def System_do_step_individual_def)
qed

text \<open>
  C6 as amended: for every system with criteria \<open>K\<close> and the default \<open>do_step_all\<close>,
  whatever its per-entity step does to the entities and the store, \<open>System.step\<close> runs
  the per-entity step over the list of those entries of the store, in the store's order,
  whose entity contained every key of \<open>K\<close> when \<open>step\<close> was called (a membership test,
  whatever the values). When no call raises, the step is called exactly once per such
  entry and on nothing else; that is exactly once per selected entity when no entity is
  stored under two ids. With empty criteria every entry is selected.
\<close>

theorem System_step_selects:
  "System_step (System_with K g) (ents w) w =
     System_do_step_all g
       (filter (\<lambda>ent. \<forall>k\<in>set K. k \<in> fst ` set (heap w ent)) (map snd (ents w))) w \<and>
   ((\<forall>ent w. \<exists>w'. f ent w = Inr w' \<and> calls w' = calls w) \<longrightarrow>
    (\<exists>w'. System_step (System_with K (logged f)) (ents w) w = Inr w' \<and>
       calls w' = calls w @
         filter (\<lambda>ent. \<forall>k\<in>set K. k \<in> fst ` set (heap w ent)) (map snd (ents w))) \<and>
    (\<exists>w'. System_step (System_with [] (logged f)) (ents w) w = Inr w' \<and>
       calls w' = calls w @ map snd (ents w))) \<and>
   (distinct (map snd (ents w)) \<longrightarrow>
    distinct (filter (\<lambda>ent. \<forall>k\<in>set K. k \<in> fst ` set (heap w ent)) (map snd (ents w))))"
proof (intro conjI impI)
  show "System_step (System_with K g) (ents w) w =
     System_do_step_all g
       (filter (\<lambda>ent. \<forall>k\<in>set K. k \<in> fst ` set (heap w ent)) (map snd (ents w))) w"
    by (rule System_step_default)
next
  assume quiet: "\<forall>ent w. \<exists>w'. f ent w = Inr w' \<and> calls w' = calls w"
  show "\<exists>w'. System_step (System_with K (logged f)) (ents w) w = Inr w' \<and>
       calls w' = calls w @
         filter (\<lambda>ent. \<forall>k\<in>set K. k \<in> fst ` set (heap w ent)) (map snd (ents w))"
    using logged_all [OF quiet] by (simp add: System_step_default)
  from logged_all [OF quiet, of "map snd (ents w)" w]
  show "\<exists>w'. System_step (System_with [] (logged f)) (ents w) w = Inr w' \<and>
       calls w' = calls w @ map snd (ents w)"
    by (simp add: System_step_default)
next
  assume "distinct (map snd (ents w))"
  then show "distinct (filter (\<lambda>ent. \<forall>k\<in>set K. k \<in> fst ` set (heap w ent)) (map snd (ents w)))"
    by (rule distinct_filter)
qed

text \<open>
  The claim's example, with a per-entity step that does nothing: one call, on the entity
  with A, B and C. And a per-entity step that empties every entity: both entities with A
  are still stepped, the group having been built before the first call.
\<close>

theorem System_step_selects_witness:
  "System_step (System_with [''A'', ''B''] (logged System_do_step_individual)) (ents world_abc)
     world_abc = Inr (world_abc\<lparr>calls := [10]\<rparr>) \<and>
   System_step (System_with [''A''] (logged clear_all)) (ents world_abc) world_abc =
     Inr (world_abc\<lparr>heap := (\<lambda>r. []), calls := [10, 11]\<rparr>)"
proof -
  have e: "ents world_abc = [(0, 10), (1, 11)]" and c: "calls world_abc = []"
    by (simp_all add: world_abc_def)
  have h: "heap world_abc 10 = [(''A'', PInt 1), (''B'', PInt 2), (''C'', PInt 3)]"
    "heap world_abc 11 = [(''A'', PInt 7)]"
    by (simp_all add: world_abc_def heap_abc_def)
  from System_step_selects [of "[''A'', ''B'']" "logged System_do_step_individual" world_abc
      System_do_step_individual]
  have 1: "System_step (System_with [''A'', ''B''] (logged System_do_step_individual))
      (ents world_abc) world_abc = Inr (world_abc\<lparr>calls := [10]\<rparr>)"
    by (simp add: e h c logged_def System_do_step_individual_def)
  have 2: "System_step (System_with [''A''] (logged clear_all)) (ents world_abc) world_abc =
      Inr (world_abc\<lparr>heap := (\<lambda>r. []), calls := [10, 11]\<rparr>)"
    by (simp add: System_step_def System_with_def has_all_def dict_contains_def world_abc_def
        heap_abc_def logged_def clear_all_def)
  from 1 2 show ?thesis by simp
qed

section \<open>Filter.apply\<close>




section \<open>DeletionSystem\<close>

lemma delete_filter: "AList.delete k d = filter (\<lambda>(k', r). k' \<noteq> k) d"
  by (induction d) auto

lemma delete_each_keys:
  "distinct ks \<Longrightarrow> set ks \<subseteq> fst ` set (ents w) \<Longrightarrow>
   delete_each (map PInt ks) w = Inr (w\<lparr>ents := filter (\<lambda>(k, r). k \<notin> set ks) (ents w)\<rparr>)"
proof (induction ks arbitrary: w)
  case Nil
  then show ?case by simp
next
  case (Cons k ks)
  let ?d = "AList.delete k (ents w)"
  from Cons.prems have kin: "k \<in> fst ` set (ents w)" and notin: "k \<notin> set ks"
    and dist: "distinct ks" and sub: "set ks \<subseteq> fst ` set (ents w)" by auto
  have del: "ents_delitem (ents w) (PInt k) = Inr ?d"
    using kin by (simp add: ents_delitem_def key_of_def dict_delitem_def dict_contains_def
        map_of_eq_None_iff)
  have d: "?d = filter (\<lambda>(k', r). k' \<noteq> k) (ents w)"
    by (rule delete_filter)
  have sub': "set ks \<subseteq> fst ` set (ents (w\<lparr>ents := ?d\<rparr>))"
    using sub notin by (force simp add: d)
  have "delete_each (map PInt (k # ks)) w = delete_each (map PInt ks) (w\<lparr>ents := ?d\<rparr>)"
    by (simp add: del)
  also have "\<dots> = Inr (w\<lparr>ents := filter (\<lambda>(k', r). k' \<notin> set ks) ?d\<rparr>)"
    using Cons.IH [OF dist sub'] by simp
  also have "filter (\<lambda>(k', r). k' \<notin> set ks) ?d = filter (\<lambda>(k', r). k' \<notin> set (k # ks)) (ents w)"
    by (auto simp add: d intro: filter_cong)
  finally show ?case .
qed

lemma to_delete_keys:
  "\<forall>(k, r)\<in>set es. P r \<longrightarrow> map_of (h r) ''id'' = Some (PInt k) \<Longrightarrow>
   map (\<lambda>ent. Entity_getattr (h ent) ''id'') (filter P (map snd es)) =
   map PInt (map fst (filter (\<lambda>(k, r). P r) es))"
  by (induction es) (auto simp add: Entity_getattr_def dict_get_def)

text \<open>
  C5 as stated fails where a flagged entity's \<open>id\<close> is not the key it is stored under.
  An entity registered twice sits under the keys 0 and 1 with the one \<open>id\<close> 1: the id is
  collected twice, the second \<open>del\<close> raises \<open>KeyError\<close>, and the flagged entity is
  still stored under the key 0.
\<close>

theorem DeletionSystem_step_twice_registered:
  "ents world_twice = [(0, 7), (1, 7)] \<and>
   heap world_twice 7 = [(''delete'', PBool True), (''id'', PInt 1)] \<and>
   System_step DeletionSystem (ents world_twice) world_twice = Inl KeyError"
proof -
  have e: "ents world_twice = [(0, 7), (1, 7)]"
    by (simp add: world_twice_def world_flagged_def add_ent_def Let_def dict_setitem_def)
  have h: "heap world_twice 7 = [(''delete'', PBool True), (''id'', PInt 1)]"
    by (simp add: world_twice_def world_flagged_def add_ent_def Let_def dict_setitem_def
        Entity_setattr_def)
  have "System_step DeletionSystem (ents world_twice) world_twice = Inl KeyError"
    by (simp add: System_step_def DeletionSystem_def DeletionSystem_do_step_all_def has_all_def
        dict_contains_def Entity_getattr_def dict_get_def ents_delitem_def key_of_def
        dict_delitem_def e h)
  with e h show ?thesis by simp
qed

text \<open>
  C5 as amended: in one step over a store in which every entity that contains both
  \<open>'delete'\<close> and \<open>'id'\<close> holds, as its \<open>id\<close>, the key it is stored under (what
  \<open>add_ent\<close> writes when an entity is registered once), \<open>DeletionSystem\<close> does not
  raise; it removes exactly the entries whose entity contains both keys, the ids being
  collected from the whole group before the first removal; every other entry stays, in
  its order; the heap, and so every component of every entity, and the counter are
  unchanged. The keys of the store are distinct, as those of any dict.
\<close>

theorem DeletionSystem_step:
  assumes dist: "distinct (map fst (ents w))"
    and ids: "\<forall>(k, r)\<in>set (ents w).
        ''delete'' \<in> fst ` set (heap w r) \<and> ''id'' \<in> fst ` set (heap w r) \<longrightarrow>
        map_of (heap w r) ''id'' = Some (PInt k)"
  shows "System_step DeletionSystem (ents w) w =
     Inr (w\<lparr>ents := filter (\<lambda>(k, r).
        \<not> (''delete'' \<in> fst ` set (heap w r) \<and> ''id'' \<in> fst ` set (heap w r))) (ents w)\<rparr>)"
proof -
  let ?P = "\<lambda>r. has_all [''delete'', ''id''] (heap w r)"
  let ?ks = "map fst (filter (\<lambda>(k, r). ?P r) (ents w))"
  have P: "\<And>r. ?P r = (''delete'' \<in> fst ` set (heap w r) \<and> ''id'' \<in> fst ` set (heap w r))"
    by (simp add: has_all_iff)
  from ids have ids': "\<forall>(k, r)\<in>set (ents w). ?P r \<longrightarrow> map_of (heap w r) ''id'' = Some (PInt k)"
    by (simp add: P)
  have td: "map (\<lambda>ent. Entity_getattr (heap w ent) ''id'') (filter ?P (map snd (ents w))) =
      map PInt ?ks"
    by (rule to_delete_keys [OF ids'])
  have dks: "distinct ?ks"
    using dist by (rule distinct_map_filter)
  have sub: "set ?ks \<subseteq> fst ` set (ents w)"
    by auto
  have step: "System_step DeletionSystem (ents w) w = delete_each (map PInt ?ks) w"
    by (simp add: System_step_def DeletionSystem_def DeletionSystem_do_step_all_def td)
  have mem: "\<And>k r. (k, r) \<in> set (ents w) \<Longrightarrow> (k \<in> set ?ks) = ?P r"
  proof
    fix k r assume kr: "(k, r) \<in> set (ents w)" and "k \<in> set ?ks"
    then obtain r' where r': "(k, r') \<in> set (ents w)" and p: "?P r'" by auto
    from dist kr r' have "r = r'" by (rule eq_key_imp_eq_value)
    with p show "?P r" by simp
  next
    fix k r assume "(k, r) \<in> set (ents w)" and "?P r"
    then show "k \<in> set ?ks" by force
  qed
  have "filter (\<lambda>(k, r). k \<notin> set ?ks) (ents w) = filter (\<lambda>(k, r). \<not> ?P r) (ents w)"
  proof (rule filter_cong)
    fix x assume x: "x \<in> set (ents w)"
    obtain k r where kr: "x = (k, r)" by (cases x)
    from x kr mem [of k r]
    show "(case x of (k, r) \<Rightarrow> k \<notin> set ?ks) = (case x of (k, r) \<Rightarrow> \<not> ?P r)"
      by simp
  qed simp
  with delete_each_keys [OF dks sub] step show ?thesis
    by (simp add: P)
qed

text \<open>The claim's example: ids 1 and 3 go, id 2 stays, and nothing else changes.\<close>

theorem DeletionSystem_step_witness:
  "System_step DeletionSystem (ents world_del) world_del = Inr (world_del\<lparr>ents := [(2, 22)]\<rparr>)"
  using DeletionSystem_step [of world_del]
  by (simp add: world_del_def)

section \<open>Ids\<close>

lemma add_ent_fields:
  "ent_count (fst (add_ent w ent)) = ent_count w + 1"
  "ents (fst (add_ent w ent)) = AList.update (ent_count w) ent (ents w)"
  "assigned_id w ent = PInt (ent_count w)"
  by (simp_all add: add_ent_def Let_def dict_setitem_def assigned_id_def Entity_getattr_def
      dict_get_def Entity_setattr_def update_conv')

lemma update_keys_subset: "fst ` set (AList.update k v d) \<subseteq> insert k (fst ` set d)"
  by (induction d) auto

lemma delete_keys_subset: "fst ` set (AList.delete k d) \<subseteq> fst ` set d"
  by (induction d) auto

lemma ents_delitem_keys:
  assumes "ents_delitem d v = Inr d'"
  shows "fst ` set d' \<subseteq> fst ` set d"
proof -
  from assms obtain k where "d' = AList.delete k d"
    by (auto simp add: ents_delitem_def dict_delitem_def split: option.splits if_splits)
  then show ?thesis by (simp add: delete_keys_subset)
qed

lemma events_ids:
  "map fst (events ops w seen) =
     map (\<lambda>i. PInt (ent_count w + int i)) [0..<registrations ops]"
proof (induction ops arbitrary: w seen)
  case Nil
  then show ?case by simp
next
  case (Cons a ops)
  show ?case
  proof (cases a)
    case (Register ent)
    then show ?thesis
      by (simp add: Cons.IH add_ent_fields map_upt_Suc add.assoc add.commute del: upt_Suc)
  next
    case (Delete v)
    then show ?thesis
      by (simp add: Cons.IH split: sum.splits)
  qed
qed

lemma events_fresh:
  "\<forall>k\<in>set seen. k < ent_count w \<Longrightarrow> fst ` set (ents w) \<subseteq> set seen \<Longrightarrow>
   \<forall>(v, before)\<in>set (events ops w seen). \<forall>k\<in>set before. v \<noteq> PInt k"
proof (induction ops arbitrary: w seen)
  case Nil
  then show ?case by simp
next
  case (Cons a ops)
  show ?case
  proof (cases a)
    case (Register ent)
    let ?w = "fst (add_ent w ent)"
    let ?seen = "seen @ map fst (ents ?w)"
    have keys: "fst ` set (ents ?w) \<subseteq> insert (ent_count w) (fst ` set (ents w))"
      by (simp add: add_ent_fields update_keys_subset)
    have 1: "\<forall>k\<in>set ?seen. k < ent_count ?w"
      using Cons.prems keys by (fastforce simp add: add_ent_fields(1))
    have 2: "fst ` set (ents ?w) \<subseteq> set ?seen"
      by auto
    have here: "\<forall>k\<in>set seen. assigned_id w ent \<noteq> PInt k"
      using Cons.prems(1) by (auto simp add: add_ent_fields)
    from Cons.IH [OF 1 2] here Register show ?thesis
      by simp
  next
    case (Delete v)
    show ?thesis
    proof (cases "ents_delitem (ents w) v")
      case (Inl e)
      with Cons.IH [OF Cons.prems] Delete show ?thesis by simp
    next
      case (Inr d)
      from ents_delitem_keys [OF Inr] Cons.prems
      have 1: "\<forall>k\<in>set (seen @ map fst d). k < ent_count (w\<lparr>ents := d\<rparr>)" by auto
      have 2: "fst ` set (ents (w\<lparr>ents := d\<rparr>)) \<subseteq> set (seen @ map fst d)" by auto
      from Cons.IH [OF 1 2] Delete Inr show ?thesis by simp
    qed
  qed
qed

text \<open>
  C4 as stated fails for a manager built on a store: the counter starts at 0 whatever the
  store holds, so with the key 0 already present the first registration assigns 0 again
  and replaces the entity stored there.
\<close>

theorem id_reused_with_prebuilt_store:
  "map fst (ents mgr_prebuilt) = [0] \<and>
   events [Register 2] mgr_prebuilt (map fst (ents mgr_prebuilt)) = [(PInt 0, [0])] \<and>
   map_of (ents (fst (add_ent mgr_prebuilt 2))) 0 = Some 2"
  by (simp add: mgr_prebuilt_def EntityManager_init_def add_ent_fields update_conv')

text \<open>
  C4 as amended: every manager starts with the counter 0, whatever store it is built
  on, and in every run of registrations and deletions, from every state, the ids assigned
  are the counter's value and then one more per registration, whatever is deleted in
  between: the ids of a manager are 0, 1, 2, ... And from every state whose store keys
  are all below the counter (which holds for a manager built without a store, its store
  being empty), no registration assigns an id that was a key of the store at any earlier
  moment, present or since removed.
\<close>

theorem ids_sequential_and_fresh:
  "map fst (events ops w seen) =
     map (\<lambda>i. PInt (ent_count w + int i)) [0..<registrations ops] \<and>
   ((\<forall>k\<in>fst ` set (ents w). k < ent_count w) \<longrightarrow>
    (\<forall>(v, before)\<in>set (events ops w (map fst (ents w))). \<forall>k\<in>set before. v \<noteq> PInt k)) \<and>
   ent_count (EntityManager_init h e s d f) = 0 \<and>
   ents (EntityManager_init h None s d f) = []"
  using events_ids [of ops w seen] events_fresh [of "map fst (ents w)" w ops]
  by (simp add: EntityManager_init_def)

theorem ids_sequential_and_fresh_witness:
  "events [Register 5, Delete (PInt 0), Register 6, Delete (PInt 2), Register 7] world_hp
     (map fst (ents world_hp))
     = [(PInt 2, [0, 1]), (PInt 3, [0, 1, 0, 1, 2, 1, 2]),
        (PInt 4, [0, 1, 0, 1, 2, 1, 2, 1, 2, 3, 1, 3])]"
  using ids_sequential_and_fresh
    [of "[Register 5, Delete (PInt 0), Register 6, Delete (PInt 2), Register 7]" world_hp
      "map fst (ents world_hp)"]
  by (simp add: world_hp_def add_ent_fields ents_delitem_def key_of_def dict_delitem_def
      dict_contains_def)

section \<open>The state fingerprint\<close>








end
